theory Spec2Isabelle
  imports Main "HOL-Library.Sublist" "HOL-Library.AList"
begin

section \<open>Strings of the runtime\<close>

text \<open>
  A string is a list of characters, and so is a buffer of bytes. The characters are the
  eight-bit characters of HOL; a text with other characters is outside the model. The
  string built-ins the sources use are written out: \<open>indexOf\<close> (index of the first occurrence, \<open>-1\<close>
  when there is none), the one-argument \<open>substring\<close> (the start index is clamped into
  \<open>0 .. length\<close>), \<open>split('/')\<close> and \<open>endsWith('/')\<close>.
\<close>

type_synonym buffer = string

fun indexOf_from :: "string \<Rightarrow> string \<Rightarrow> nat \<Rightarrow> int" where
  "indexOf_from [] t i = (if t = [] then int i else - 1)"
| "indexOf_from (c # cs) t i =
     (if prefix t (c # cs) then int i else indexOf_from cs t (Suc i))"

definition indexOf :: "string \<Rightarrow> string \<Rightarrow> int" where
  "indexOf s t = indexOf_from s t 0"

definition substring :: "string \<Rightarrow> int \<Rightarrow> string" where
  "substring s start = drop (nat (min (max start 0) (int (length s)))) s"

fun split_from :: "char \<Rightarrow> string \<Rightarrow> string \<Rightarrow> string list" where
  "split_from sep part [] = [part]"
| "split_from sep part (c # cs) =
     (if c = sep then part # split_from sep [] cs else split_from sep (part @ [c]) cs)"

definition split :: "string \<Rightarrow> string list" where
  "split s = split_from (CHR ''/'') [] s"

definition endsWith_slash :: "string \<Rightarrow> bool" where
  "endsWith_slash s \<longleftrightarrow> s \<noteq> [] \<and> last s = CHR ''/''"

section \<open>Entries of the remote file tree (classes File and Directory)\<close>

text \<open>
  \<open>kuduFile\<close> is one element of a remote directory listing. The constructor of
  \<open>File\<close> computes \<open>entryPath\<close> from the listed path:
  \<^verbatim>\<open>file.path.substring(file.path.indexOf(home) + home.length + 1)\<close> with
  \<^verbatim>\<open>home = 'home'\<close>. The same expression is used by \<open>FolderTreeItem.loadMoreChildrenImpl\<close>.

  Entries are objects that are mutated in place and reached through references, so they
  live in a store (\<open>heap\<close> below), and a reference is an index into it. The children of
  a directory are a map from names to references that keeps its insertion order; it is an
  association list, \<open>Map.set\<close> is \<open>AList.update\<close> and \<open>Map.get\<close> is \<open>map_of\<close>.
  The two time stamps of an entry are left out: they are \<open>Date.parse\<close> of strings of
  the listing (the current time for a root), and nothing below reads them. The fields
  carry a prefix where their name is taken in HOL. The constructors set \<open>type\<close> and
  nothing changes it afterwards, so an entry is an instance of \<open>Directory\<close> exactly
  when its \<open>e_type\<close> is \<open>Directory\<close>.
\<close>

definition home :: string where
  "home = ''home''"

definition entryPath_of :: "string \<Rightarrow> string" where
  "entryPath_of p = substring p (indexOf p home + int (length home) + 1)"

datatype FileType = File | Directory

record kuduFile =
  kf_mime :: string
  kf_name :: string
  kf_path :: string
  kf_size :: nat

record Entry =
  e_type :: FileType
  e_size :: nat
  e_name :: string
  e_entryPath :: string
  entries :: "(string \<times> nat) list option"

definition directoryMime :: string where
  "directoryMime = ''inode/directory''"

definition File_new :: "kuduFile \<Rightarrow> Entry" where
  "File_new file =
     \<lparr> e_type = File, e_size = kf_size file, e_name = kf_name file,
       e_entryPath = entryPath_of (kf_path file), entries = None \<rparr>"

definition Directory_new :: "kuduFile \<Rightarrow> Entry" where
  "Directory_new file = (File_new file)\<lparr> e_type := Directory \<rparr>"

section \<open>The file system provider (class AppServiceFS)\<close>

subsection \<open>Errors, the outside world and the state\<close>

text \<open>
  The errors the provider throws itself are the four kinds of \<open>FileSystemError\<close> it
  uses (their argument, a URI or a message, is left out), the plain \<open>Error\<close> of
  \<open>rename\<close> with its message, and the \<open>TypeError\<close> of calling \<open>refreshEntries\<close> on
  an entry that is a \<open>File\<close>. An error thrown by a collaborator is \<open>External\<close>.
\<close>

datatype fs_error =
    FileNotFound
  | FileNotADirectory
  | NoPermissions
  | Unavailable
  | PlainError string
  | TypeError
  | External string

text \<open>
  A site client and the Kudu client made for it are represented by the id of the site.
  The calls that go to the remote host are recorded, in order, each with whether it
  succeeded: the directory listing, the download of a file, the upload of a file and the
  deletion of an item.
\<close>

type_synonym SiteClient = string
type_synonym KuduClient = string

datatype remote_call =
    GetItem KuduClient string
  | GetFile SiteClient string
  | PutFile SiteClient buffer string "string option"
  | DeleteItem KuduClient string bool string

text \<open>
  The collaborators are parameters. \<open>'r\<close> is the state of the remote host; a remote
  operation takes it and returns its result or its error, and the next state.
  \<open>findNode\<close> is \<open>ext.tree.findNode\<close> followed by \<open>node.treeItem.client\<close>;
  \<open>vfs_getItem\<close> is \<open>vfs.getItemWithHttpOperationResponse\<close> followed by
  \<open>JSON.parse\<close> of the body (a body that does not parse is an error);
  \<open>putFile\<close> is given \<open>content.toString()\<close>; \<open>dirname\<close> is \<open>path.dirname\<close>
  of the platform.
\<close>

record 'r env =
  findNode :: "string \<Rightarrow> SiteClient option"
  getKuduClient :: "SiteClient \<Rightarrow> fs_error + KuduClient"
  vfs_getItem :: "'r \<Rightarrow> KuduClient \<Rightarrow> string \<Rightarrow> (fs_error + kuduFile list) \<times> 'r"
  getFile :: "'r \<Rightarrow> SiteClient \<Rightarrow> string \<Rightarrow> (fs_error + buffer \<times> string) \<times> 'r"
  putFile :: "'r \<Rightarrow> SiteClient \<Rightarrow> buffer \<Rightarrow> string \<Rightarrow> string option \<Rightarrow> (fs_error + string) \<times> 'r"
  vfs_deleteItem :: "'r \<Rightarrow> KuduClient \<Rightarrow> string \<Rightarrow> bool \<Rightarrow> string \<Rightarrow> (fs_error + unit) \<times> 'r"
  dirname :: "string \<Rightarrow> string"

text \<open>
  The state: the fields of the provider (\<open>readonly\<close>, \<open>etags\<close>, \<open>roots\<close>), the
  store of entries, the remote host and the record of the remote calls.
\<close>

record 'r fs_state =
  readonly :: bool
  etags :: "(string \<times> string) list"
  roots :: "(string \<times> nat) list"
  heap :: "Entry list"
  remote :: 'r
  calls :: "(remote_call \<times> bool) list"

definition AppServiceFS_new :: "bool \<Rightarrow> 'r \<Rightarrow> 'r fs_state" where
  "AppServiceFS_new ro rem =
     \<lparr> readonly = ro, etags = [], roots = [], heap = [], remote = rem, calls = [] \<rparr>"

text \<open>
  An asynchronous function is a function from the state to its outcome (an error or a
  value) and the state it leaves; \<open>await m f\<close> runs \<open>m\<close> and continues with \<open>f\<close> on
  its value, or stops with its error. This is the run of one operation with nothing else
  interleaved.
\<close>

type_synonym ('a, 'r) task = "'r fs_state \<Rightarrow> (fs_error + 'a) \<times> 'r fs_state"

definition return :: "'a \<Rightarrow> ('a, 'r) task" where
  "return x = (\<lambda>s. (Inr x, s))"

definition throw :: "fs_error \<Rightarrow> ('a, 'r) task" where
  "throw e = (\<lambda>s. (Inl e, s))"

definition await :: "('a, 'r) task \<Rightarrow> ('a \<Rightarrow> ('b, 'r) task) \<Rightarrow> ('b, 'r) task" where
  "await m f = (\<lambda>s. case m s of (Inl e, s') \<Rightarrow> (Inl e, s') | (Inr x, s') \<Rightarrow> f x s')"

definition remote_op :: "remote_call \<Rightarrow> ('r \<Rightarrow> (fs_error + 'a) \<times> 'r) \<Rightarrow> ('a, 'r) task" where
  "remote_op c f =
     (\<lambda>s. case f (remote s) of
             (r, rem) \<Rightarrow> (r, s\<lparr> remote := rem, calls := calls s @ [(c, \<not> isl r)] \<rparr>))"

definition kudu_client :: "'r env \<Rightarrow> SiteClient \<Rightarrow> (KuduClient, 'r) task" where
  "kudu_client E siteClient = (\<lambda>s. (getKuduClient E siteClient, s))"

subsection \<open>Directory: the cached children\<close>

text \<open>
  \<open>actuallyRefreshEntries\<close> lists the directory on the remote host and builds a new
  map with a new entry object for each element of the listing.
\<close>

fun add_entries ::
  "kuduFile list \<Rightarrow> (string \<times> nat) list \<Rightarrow> Entry list \<Rightarrow> (string \<times> nat) list \<times> Entry list" where
  "add_entries [] es h = (es, h)"
| "add_entries (file # fileList) es h =
     add_entries fileList (AList.update (kf_name file) (length h) es)
       (h @ [if kf_mime file = ''inode/directory'' then Directory_new file else File_new file])"

definition actuallyRefreshEntries ::
  "'r env \<Rightarrow> KuduClient \<Rightarrow> nat \<Rightarrow> ((string \<times> nat) list, 'r) task" where
  "actuallyRefreshEntries E kuduClient this =
     (\<lambda>s. await
        (remote_op (GetItem kuduClient (e_entryPath (heap s ! this)))
           (\<lambda>rem. vfs_getItem E rem kuduClient (e_entryPath (heap s ! this))))
        (\<lambda>fileList s'.
           case add_entries fileList [] (heap s') of
             (es, h) \<Rightarrow> (Inr es, s'\<lparr> heap := h \<rparr>)) s)"

text \<open>
  \<open>refreshEntries\<close> as it runs when no refresh of the directory is in flight, which
  is so at every call within one operation that runs alone: the listing is fetched and,
  when that succeeded, stored in \<open>_entries\<close>. The other branch, taken by a call
  that finds a refresh in flight, is the subject of the section on concurrent refreshes.
\<close>

definition refreshEntries ::
  "'r env \<Rightarrow> KuduClient \<Rightarrow> nat \<Rightarrow> ((string \<times> nat) list, 'r) task" where
  "refreshEntries E kuduClient this =
     await (actuallyRefreshEntries E kuduClient this)
       (\<lambda>result s.
          (Inr result, s\<lparr> heap := (heap s)[this := (heap s ! this)\<lparr> entries := Some result \<rparr>] \<rparr>))"

definition getEntries ::
  "'r env \<Rightarrow> KuduClient \<Rightarrow> nat \<Rightarrow> ((string \<times> nat) list, 'r) task" where
  "getEntries E kuduClient this =
     (\<lambda>s. case entries (heap s ! this) of
             Some es \<Rightarrow> (Inr es, s)
           | None \<Rightarrow> refreshEntries E kuduClient this s)"

definition getEntry ::
  "'r env \<Rightarrow> KuduClient \<Rightarrow> nat \<Rightarrow> string \<Rightarrow> (nat option, 'r) task" where
  "getEntry E kuduClient this nm =
     (\<lambda>s. case entries (heap s ! this) of
             Some es \<Rightarrow> (Inr (map_of es nm), s)
           | None \<Rightarrow> await (refreshEntries E kuduClient this) (\<lambda>es. return (map_of es nm)) s)"

subsection \<open>Parsing a URI\<close>

text \<open>
  \<open>parseAppServiceUri\<close> matches the path of the URI against
  \<^verbatim>\<open>/(\/subscriptions\/[^\/]+\/resourceGroups\/[^\/]+\/providers\/Microsoft\.Web\/sites\/[^\/]+)\/(.*)/\<close>.
  Each \<^verbatim>\<open>[^\/]+\<close> is followed by a slash, so it can only match a whole non-empty run
  of characters other than a slash; \<open>match_here\<close> is the match at the start of a string
  and \<open>uri_match\<close> tries every start from left to right. The result is the pair of the
  two groups; a match always has both, so the test \<^verbatim>\<open>matches.length < 3\<close> adds nothing
  to \<^verbatim>\<open>matches === null\<close>. The dot of the last group stops at a line terminator (of
  the four of the language, line feed and carriage return are characters here). A URI is
  represented by its path, the only part of it that is read.
\<close>

definition lit :: "string \<Rightarrow> string \<Rightarrow> string option" where
  "lit t s = (if prefix t s then Some (drop (length t) s) else None)"

definition not_slash :: "char \<Rightarrow> bool" where
  "not_slash c \<longleftrightarrow> c \<noteq> CHR ''/''"

definition segment :: "string \<Rightarrow> (string \<times> string) option" where
  "segment s =
     (if takeWhile not_slash s = [] then None
      else Some (takeWhile not_slash s, dropWhile not_slash s))"

definition line_terminator :: "char \<Rightarrow> bool" where
  "line_terminator c \<longleftrightarrow> c = CHR 0x0A \<or> c = CHR 0x0D"

definition match_here :: "string \<Rightarrow> (string \<times> string) option" where
  "match_here s =
     (case lit ''/subscriptions/'' s of None \<Rightarrow> None | Some s1 \<Rightarrow>
      case segment s1 of None \<Rightarrow> None | Some (sub, s2) \<Rightarrow>
      case lit ''/resourceGroups/'' s2 of None \<Rightarrow> None | Some s3 \<Rightarrow>
      case segment s3 of None \<Rightarrow> None | Some (rg, s4) \<Rightarrow>
      case lit ''/providers/Microsoft.Web/sites/'' s4 of None \<Rightarrow> None | Some s5 \<Rightarrow>
      case segment s5 of None \<Rightarrow> None | Some (site, s6) \<Rightarrow>
      case lit ''/'' s6 of None \<Rightarrow> None | Some s7 \<Rightarrow>
        Some (''/subscriptions/'' @ sub @ ''/resourceGroups/'' @ rg @
                ''/providers/Microsoft.Web/sites/'' @ site,
              takeWhile (\<lambda>c. \<not> line_terminator c) s7))"

fun uri_match :: "string \<Rightarrow> (string \<times> string) option" where
  "uri_match [] = match_here []"
| "uri_match (c # cs) =
     (case match_here (c # cs) of Some groups \<Rightarrow> Some groups | None \<Rightarrow> uri_match cs)"

definition parseAppServiceUri :: "'r env \<Rightarrow> string \<Rightarrow> (SiteClient \<times> string, 'r) task" where
  "parseAppServiceUri E uri =
     (case uri_match uri of
        None \<Rightarrow> throw FileNotFound
      | Some (siteId, entryPath) \<Rightarrow>
          (case findNode E siteId of
             Some client \<Rightarrow> return (client, entryPath)
           | None \<Rightarrow> throw Unavailable))"

subsection \<open>Looking up a path\<close>

definition root_of :: "SiteClient \<Rightarrow> (nat, 'r) task" where
  "root_of siteClient =
     (\<lambda>s. case map_of (roots s) siteClient of
             Some root \<Rightarrow> (Inr root, s)
           | None \<Rightarrow>
               (Inr (length (heap s)),
                s\<lparr> heap := heap s @
                      [Directory_new \<lparr> kf_mime = directoryMime, kf_name = ''root'',
                                       kf_path = [], kf_size = 0 \<rparr>],
                   roots := AList.update siteClient (length (heap s)) (roots s) \<rparr>))"

fun walk :: "'r env \<Rightarrow> KuduClient \<Rightarrow> string list \<Rightarrow> nat \<Rightarrow> (nat, 'r) task" where
  "walk E kuduClient [] entry = return entry"
| "walk E kuduClient (part # parts) entry =
     (if part = [] then walk E kuduClient parts entry
      else (\<lambda>s. if e_type (heap s ! entry) = Directory
                 then await (getEntry E kuduClient entry part)
                        (\<lambda>child. case child of
                                    None \<Rightarrow> throw FileNotFound
                                  | Some c \<Rightarrow> walk E kuduClient parts c) s
                 else throw FileNotFound s))"

definition lookup :: "'r env \<Rightarrow> SiteClient \<Rightarrow> string \<Rightarrow> (nat, 'r) task" where
  "lookup E siteClient entryPath =
     await (kudu_client E siteClient) (\<lambda>kuduClient.
     await (root_of siteClient) (\<lambda>root.
     walk E kuduClient (split entryPath) root))"

subsection \<open>The operations\<close>

definition readDirectory :: "'r env \<Rightarrow> string \<Rightarrow> ((string \<times> FileType) list, 'r) task" where
  "readDirectory E uri =
     await (parseAppServiceUri E uri) (\<lambda>(siteClient, entryPath).
     await (lookup E siteClient entryPath) (\<lambda>entry s.
       if e_type (heap s ! entry) = Directory
       then await (kudu_client E siteClient) (\<lambda>kuduClient.
            await (getEntries E kuduClient entry) (\<lambda>es s'.
              (Inr (map (\<lambda>child. (fst child, e_type (heap s' ! snd child))) es), s'))) s
       else throw FileNotADirectory s))"

definition stat :: "'r env \<Rightarrow> string \<Rightarrow> (Entry, 'r) task" where
  "stat E uri =
     await (parseAppServiceUri E uri) (\<lambda>(siteClient, entryPath).
     await (lookup E siteClient entryPath) (\<lambda>entry s. (Inr (heap s ! entry), s)))"

text \<open>
  The last two lines of the three mutating operations: the parent is looked up and, cast
  to \<open>Directory\<close>, refreshed. On a parent that is a \<open>File\<close> the method does not exist.
\<close>

definition refresh_parent :: "'r env \<Rightarrow> SiteClient \<Rightarrow> string \<Rightarrow> (unit, 'r) task" where
  "refresh_parent E siteClient entryPath =
     await (lookup E siteClient (dirname E entryPath)) (\<lambda>parent.
     await (kudu_client E siteClient) (\<lambda>kuduClient s.
       if e_type (heap s ! parent) = Directory
       then await (refreshEntries E kuduClient parent) (\<lambda>es. return ()) s
       else throw TypeError s))"

definition createDirectory :: "'r env \<Rightarrow> string \<Rightarrow> (unit, 'r) task" where
  "createDirectory E uri =
     (\<lambda>s. if readonly s then throw NoPermissions s
           else await (parseAppServiceUri E uri) (\<lambda>(siteClient, entryPath).
                await (remote_op
                         (PutFile siteClient []
                            (if endsWith_slash entryPath then entryPath else entryPath @ ''/'') None)
                         (\<lambda>rem. putFile E rem siteClient []
                            (if endsWith_slash entryPath then entryPath else entryPath @ ''/'') None))
                  (\<lambda>etag. refresh_parent E siteClient entryPath)) s)"

definition readFile :: "'r env \<Rightarrow> string \<Rightarrow> (buffer, 'r) task" where
  "readFile E uri =
     await (parseAppServiceUri E uri) (\<lambda>(siteClient, entryPath).
     await (remote_op (GetFile siteClient entryPath) (\<lambda>rem. getFile E rem siteClient entryPath))
       (\<lambda>result s. (Inr (fst result), s\<lparr> etags := AList.update uri (snd result) (etags s) \<rparr>)))"

definition writeFile :: "'r env \<Rightarrow> string \<Rightarrow> buffer \<Rightarrow> (unit, 'r) task" where
  "writeFile E uri content =
     (\<lambda>s. if readonly s then throw NoPermissions s
           else await (parseAppServiceUri E uri) (\<lambda>(siteClient, entryPath) s1.
                await (remote_op
                         (PutFile siteClient content entryPath (map_of (etags s1) uri))
                         (\<lambda>rem. putFile E rem siteClient content entryPath (map_of (etags s1) uri)))
                  (\<lambda>etag s2.
                     refresh_parent E siteClient entryPath
                       (s2\<lparr> etags := AList.update uri etag (etags s2) \<rparr>)) s1) s)"

definition delete :: "'r env \<Rightarrow> string \<Rightarrow> bool \<Rightarrow> (unit, 'r) task" where
  "delete E uri recursive =
     (\<lambda>s. if readonly s then throw NoPermissions s
           else await (parseAppServiceUri E uri) (\<lambda>(siteClient, entryPath).
                await (lookup E siteClient entryPath) (\<lambda>entry.
                await (\<lambda>s1. if e_type (heap s1 ! entry) = File
                             then await (remote_op (GetFile siteClient entryPath)
                                           (\<lambda>rem. getFile E rem siteClient entryPath))
                                    (\<lambda>result. return (snd result)) s1
                             else return [] s1) (\<lambda>etag.
                await (kudu_client E siteClient) (\<lambda>kuduClient.
                await (remote_op (DeleteItem kuduClient entryPath recursive etag)
                         (\<lambda>rem. vfs_deleteItem E rem kuduClient entryPath recursive etag))
                  (\<lambda>u. refresh_parent E siteClient entryPath))))) s)"

definition rename :: "'r env \<Rightarrow> string \<Rightarrow> string \<Rightarrow> bool \<Rightarrow> (unit, 'r) task" where
  "rename E oldUri newUri overwrite =
     (\<lambda>s. if readonly s then throw NoPermissions s
           else throw (PlainError ''Method not implemented.'') s)"

subsection \<open>Notions used to state the properties of the provider\<close>

text \<open>
  A remote call is a \<open>mutation\<close> when it changes the remote host. \<open>cached_kept s s'\<close>:
  every entry of \<open>s\<close> is still there in \<open>s'\<close>, every directory whose children were
  cached in \<open>s\<close> has the same cached children in \<open>s'\<close>, and every root of \<open>s\<close> is
  still the root of its site. \<open>reads_only s s'\<close>: from \<open>s\<close> to \<open>s'\<close> no mutation was
  called, the cache was kept and the version tags are the same. \<open>log_grows\<close>: the
  record of the remote calls was only extended.
\<close>

definition mutation :: "remote_call \<Rightarrow> bool" where
  "mutation c = (case c of PutFile client content p tag \<Rightarrow> True
                 | DeleteItem client p recursive tag \<Rightarrow> True
                 | GetItem client p \<Rightarrow> False
                 | GetFile client p \<Rightarrow> False)"

definition cached_kept :: "'r fs_state \<Rightarrow> 'r fs_state \<Rightarrow> bool" where
  "cached_kept s s' \<longleftrightarrow>
     length (heap s) \<le> length (heap s') \<and>
     (\<forall>a < length (heap s).
        entries (heap s ! a) \<noteq> None \<longrightarrow> entries (heap s' ! a) = entries (heap s ! a)) \<and>
     (\<forall>client root. map_of (roots s) client = Some root \<longrightarrow> map_of (roots s') client = Some root)"

definition reads_only :: "'r fs_state \<Rightarrow> 'r fs_state \<Rightarrow> bool" where
  "reads_only s s' \<longleftrightarrow>
     (\<exists>new. calls s' = calls s @ new \<and> (\<forall>x \<in> set new. \<not> mutation (fst x))) \<and>
     cached_kept s s' \<and> etags s' = etags s \<and> readonly s' = readonly s"

definition log_grows :: "'r fs_state \<Rightarrow> 'r fs_state \<Rightarrow> bool" where
  "log_grows s s' \<longleftrightarrow> (\<exists>new. calls s' = calls s @ new)"


subsection \<open>A small remote host\<close>

text \<open>
  An environment to run the operations in: one site, whose home directory holds the
  directory \<open>site\<close> with the file \<open>a.txt\<close>. The state of the remote host is the
  current version tag of that file. An upload is accepted when it carries no tag or the
  current one, and is rejected with status 412 otherwise; a deletion is accepted when the
  host is \<open>deletable\<close> and the tag is the current one, and is rejected with status 409
  otherwise. \<open>posix_dirname\<close> is \<open>path.dirname\<close> as it is on a platform with
  forward slashes: from the end of the path and not looking at its first character, the
  trailing slashes and then the last part are passed over, and the slash found there ends
  the result; \<open>.\<close>, \<open>/\<close> or \<open>//\<close> is the result when there is no such slash or
  nothing but the root before it. \<open>listed_root\<close> is a provider after \<open>readDirectory\<close> of the root;
  \<open>stale_tag\<close> is a provider that remembers the tag \<open>v1\<close> of a file whose tag is
  \<open>v2\<close> by now, and \<open>fresh_tag\<close> is one that remembers \<open>v2\<close>. The others are
  states on the way of two runs: \<open>uploaded\<close> is \<open>fresh_tag\<close> right after its upload
  was accepted and \<open>parent_found\<close> the state after the lookup of the parent that
  follows; \<open>found_file\<close> is \<open>listed_root\<close> after the lookup of the file to delete
  and \<open>tag_read\<close> the state after the download of its tag.
\<close>

definition example_site :: string where
  "example_site = ''/subscriptions/s1/resourceGroups/rg1/providers/Microsoft.Web/sites/app1''"

definition posix_dirname :: "string \<Rightarrow> string" where
  "posix_dirname p =
     (if p = [] then ''.''
      else (let hasRoot = (hd p = CHR ''/'');
                found = dropWhile not_slash (dropWhile (\<lambda>c. c = CHR ''/'') (rev (tl p)))
            in if found = [] then (if hasRoot then ''/'' else ''.'')
               else if hasRoot \<and> tl found = [] then ''//''
               else hd p # rev (tl found)))"

definition example_env :: "bool \<Rightarrow> string env" where
  "example_env deletable =
     \<lparr> findNode = (\<lambda>siteId. if siteId = example_site then Some siteId else None),
       getKuduClient = Inr,
       vfs_getItem = (\<lambda>rem kuduClient p.
          if p = [] then
            (Inr [\<lparr> kf_mime = ''inode/directory'', kf_name = ''site'',
                     kf_path = ''/home/site'', kf_size = 0 \<rparr>], rem)
          else if p = ''site'' then
            (Inr [\<lparr> kf_mime = ''text/plain'', kf_name = ''a.txt'',
                     kf_path = ''/home/site/a.txt'', kf_size = 2 \<rparr>], rem)
          else (Inl (External ''404''), rem)),
       getFile = (\<lambda>rem client p. (Inr (''hi'', rem), rem)),
       putFile = (\<lambda>rem client content p tag.
          if tag = None \<or> tag = Some rem then (Inr (rem @ ''+''), rem @ ''+'')
          else (Inl (External ''412''), rem)),
       vfs_deleteItem = (\<lambda>rem kuduClient p recursive tag.
          if deletable \<and> tag = rem then (Inr (), rem) else (Inl (External ''409''), rem)),
       dirname = posix_dirname \<rparr>"










section \<open>Concurrent refreshes of one directory\<close>

text \<open>
  The operations of the provider are asynchronous functions on one thread: a call runs
  until it reaches an \<open>await\<close> on a promise that is not settled, is suspended there, and
  its continuation runs some time after the promise has settled; in between, other calls
  and other continuations run. This section follows one \<open>Directory\<close> object through
  such interleavings. Its state is the two fields \<open>_entries\<close> and
  \<open>_refreshingTask\<close>, the promises made by \<open>actuallyRefreshEntries\<close> so far (a
  promise is named by its index), the callers that are suspended (with the promise they
  await and the branch of \<open>refreshEntries\<close> they are in: \<open>Starter\<close> made the
  promise, \<open>Joiner\<close> found it in flight), the callers that have returned with their
  outcome, and the number of listing requests sent to the remote host. \<open>'m\<close> is the
  type of the map that \<open>actuallyRefreshEntries\<close> builds from a listing.

  \<^item> \<open>call_refreshEntries\<close> is \<open>refreshEntries\<close> up to its \<open>await\<close>. In the second
    branch \<open>actuallyRefreshEntries\<close> is called, which runs up to its own \<open>await\<close>:
    by then the listing request has been sent, and the promise it returns is pending.
  \<^item> \<open>call_getEntries\<close> is \<open>getEntries\<close> up to its \<open>await\<close>: cached children
    are returned at once, otherwise \<open>refreshEntries\<close> is called. (\<open>getEntry\<close> does
    the same and then reads one name from the map.)
  \<^item> \<open>listing_done t outcome\<close>: the listing request of promise \<open>t\<close> comes back and
    the rest of \<open>actuallyRefreshEntries\<close> settles the promise, with the map it built or
    with the error.
  \<^item> \<open>resume\<close> runs the continuation of a suspended caller whose promise is settled
    (\<open>finish\<close>): the starter stores a map in \<open>_entries\<close> and, in its \<open>finally\<close>
    block, clears \<open>_refreshingTask\<close>; every caller returns the outcome of the promise.
\<close>

datatype 'm promise = Pending | Fulfilled 'm | Rejected fs_error

datatype branch = Starter | Joiner

record 'm refreshing =
  d_entries :: "'m option"
  d_refreshingTask :: "nat option"
  d_promises :: "'m promise list"
  d_suspended :: "nat \<Rightarrow> (nat \<times> branch) option"
  d_returned :: "nat \<Rightarrow> (fs_error + 'm) option"
  d_listings :: nat

definition Directory_fresh :: "'m refreshing" where
  "Directory_fresh =
     \<lparr> d_entries = None, d_refreshingTask = None, d_promises = [],
       d_suspended = (\<lambda>caller. None), d_returned = (\<lambda>caller. None), d_listings = 0 \<rparr>"

definition call_refreshEntries :: "nat \<Rightarrow> 'm refreshing \<Rightarrow> 'm refreshing" where
  "call_refreshEntries caller d =
     (case d_refreshingTask d of
        Some t \<Rightarrow> d\<lparr> d_suspended := (d_suspended d)(caller \<mapsto> (t, Joiner)) \<rparr>
      | None \<Rightarrow>
          d\<lparr> d_promises := d_promises d @ [Pending],
             d_listings := Suc (d_listings d),
             d_refreshingTask := Some (length (d_promises d)),
             d_suspended := (d_suspended d)(caller \<mapsto> (length (d_promises d), Starter)) \<rparr>)"

definition call_getEntries :: "nat \<Rightarrow> 'm refreshing \<Rightarrow> 'm refreshing" where
  "call_getEntries caller d =
     (case d_entries d of
        Some m \<Rightarrow> d\<lparr> d_returned := (d_returned d)(caller \<mapsto> Inr m) \<rparr>
      | None \<Rightarrow> call_refreshEntries caller d)"

definition listing_done :: "nat \<Rightarrow> fs_error + 'm \<Rightarrow> 'm refreshing \<Rightarrow> 'm refreshing" where
  "listing_done t outcome d =
     (if t < length (d_promises d) \<and> d_promises d ! t = Pending
      then d\<lparr> d_promises := (d_promises d)
                 [t := (case outcome of Inl e \<Rightarrow> Rejected e | Inr m \<Rightarrow> Fulfilled m)] \<rparr>
      else d)"

definition finish :: "nat \<Rightarrow> branch \<Rightarrow> fs_error + 'm \<Rightarrow> 'm refreshing \<Rightarrow> 'm refreshing" where
  "finish caller b outcome d =
     (let d1 = (case (b, outcome) of
                  (Starter, Inr m) \<Rightarrow> d\<lparr> d_entries := Some m \<rparr>
                | other \<Rightarrow> d);
          d2 = (case b of Starter \<Rightarrow> d1\<lparr> d_refreshingTask := None \<rparr> | Joiner \<Rightarrow> d1)
      in d2\<lparr> d_suspended := (d_suspended d2)(caller := None),
              d_returned := (d_returned d2)(caller \<mapsto> outcome) \<rparr>)"

definition resume :: "nat \<Rightarrow> 'm refreshing \<Rightarrow> 'm refreshing" where
  "resume caller d =
     (case d_suspended d caller of
        None \<Rightarrow> d
      | Some (t, b) \<Rightarrow>
          (if t < length (d_promises d) then
             (case d_promises d ! t of
                Pending \<Rightarrow> d
              | Fulfilled m \<Rightarrow> finish caller b (Inr m) d
              | Rejected e \<Rightarrow> finish caller b (Inl e) d)
           else d))"

datatype 'm step =
    Call_refreshEntries nat
  | Call_getEntries nat
  | Listing_done nat "fs_error + 'm"
  | Resume nat

fun do_step :: "'m step \<Rightarrow> 'm refreshing \<Rightarrow> 'm refreshing" where
  "do_step (Call_refreshEntries caller) d = call_refreshEntries caller d"
| "do_step (Call_getEntries caller) d = call_getEntries caller d"
| "do_step (Listing_done t outcome) d = listing_done t outcome d"
| "do_step (Resume caller) d = resume caller d"

fun steps :: "'m step list \<Rightarrow> 'm refreshing \<Rightarrow> 'm refreshing" where
  "steps [] d = d"
| "steps (e # es) d = steps es (do_step e d)"


subsection \<open>Notions used to state the properties of concurrent refreshes\<close>

text \<open>
  A step is \<open>reading m\<close> when it is a call of \<open>getEntries\<close>, a resumption, or a
  listing that comes back with the map \<open>m\<close>. \<open>settle\<close> is the state of a promise
  after its outcome, \<open>stored\<close> is what the starter leaves in \<open>_entries\<close>. The other
  three are invariants: \<open>one_refresh\<close> of every interleaving of reading steps,
  \<open>waiting\<close> of the callers before the listing is back, \<open>settled\<close> afterwards.
\<close>

definition reading :: "'m \<Rightarrow> 'm step \<Rightarrow> bool" where
  "reading m e = (case e of
       Call_getEntries caller \<Rightarrow> True
     | Resume caller \<Rightarrow> True
     | Listing_done t outcome \<Rightarrow> outcome = Inr m
     | Call_refreshEntries caller \<Rightarrow> False)"

definition one_refresh :: "'m \<Rightarrow> 'm refreshing \<Rightarrow> bool" where
  "one_refresh m d \<longleftrightarrow>
     d_listings d = length (d_promises d) \<and> length (d_promises d) \<le> 1 \<and>
     (\<forall>p \<in> set (d_promises d). p = Pending \<or> p = Fulfilled m) \<and>
     (d_entries d = None \<or> d_entries d = Some m) \<and>
     (\<forall>c r. d_returned d c = Some r \<longrightarrow> r = Inr m) \<and>
     (\<forall>t. d_refreshingTask d = Some t \<longrightarrow> t < length (d_promises d)) \<and>
     (d_refreshingTask d = None \<and> d_promises d \<noteq> [] \<longrightarrow> d_entries d = Some m)"

definition waiting :: "nat \<Rightarrow> nat set \<Rightarrow> 'm refreshing \<Rightarrow> bool" where
  "waiting c0 S d \<longleftrightarrow>
     d_entries d = None \<and> d_refreshingTask d = Some 0 \<and> d_promises d = [Pending] \<and>
     d_listings d = 1 \<and> (\<forall>c. d_returned d c = None) \<and>
     (\<forall>c. d_suspended d c =
        (if c = c0 then Some (0, Starter) else if c \<in> S then Some (0, Joiner) else None))"

definition settle :: "fs_error + 'm \<Rightarrow> 'm promise" where
  "settle outcome = (case outcome of Inl e \<Rightarrow> Rejected e | Inr m \<Rightarrow> Fulfilled m)"

definition stored :: "fs_error + 'm \<Rightarrow> 'm option" where
  "stored outcome = (case outcome of Inl e \<Rightarrow> None | Inr m \<Rightarrow> Some m)"

definition settled :: "nat \<Rightarrow> nat set \<Rightarrow> fs_error + 'm \<Rightarrow> 'm refreshing \<Rightarrow> bool" where
  "settled c0 A outcome d \<longleftrightarrow>
     d_promises d = [settle outcome] \<and> d_listings d = 1 \<and>
     (\<forall>c. d_suspended d c = None \<or>
          (c \<in> A \<and> d_suspended d c = Some (0, if c = c0 then Starter else Joiner))) \<and>
     (\<forall>c \<in> A. d_suspended d c = None \<longrightarrow> d_returned d c = Some outcome) \<and>
     (if d_suspended d c0 = None
      then d_entries d = stored outcome \<and> d_refreshingTask d = None
      else d_entries d = None \<and> d_refreshingTask d = Some 0)"

definition listing_example :: "(string \<times> nat) list" where
  "listing_example = [(''a.txt'', 2)]"

section \<open>The tunnel proxy (class DebugProxy)\<close>

text \<open>
  The proxy is an object with mutable fields whose methods run as handlers of events of
  the runtime: of the websocket client, of the upstream connection, of the local server
  and of each accepted socket. The embedding is a record of the fields and one function
  per handler body. Everything a handler does to the outside (a call on the server, on the
  websocket client, on the connection, on a socket, on the output channel, and an event
  the proxy emits itself) is appended to \<open>effects\<close>, in program order.

  Objects the runtime creates are named by numbers in the order of their creation: the
  websocket client made by \<open>startProxy\<close>, the connection that comes with a
  \<open>connect\<close> event, the socket that comes with a \<open>connection\<close> event. An
  upstream message is represented by its \<open>binaryData\<close>.
  The private method \<open>keepAlive\<close> is never called (its only call is commented out) and
  has no counterpart here; the field it reads is kept.
\<close>

datatype proxy_event = Start | End | Error string

datatype log_line =
    WebSocketConnected
  | WebSocketClosed
  | WebSocketFailure string
  | ProxyClientConnected nat
  | ProxyClientDisconnected nat
  | ProxyFailure string
  | ProxyStartListening

datatype effect =
    Emit proxy_event
  | AppendLine log_line
  | ClientConnect nat string string
  | ClientAbort nat
  | ConnectionSend nat buffer
  | ConnectionClose nat
  | ServerListen nat
  | ServerClose
  | SocketWrite nat buffer
  | SocketDestroy nat

record DebugProxy =
  server :: "unit option"
  wsclient :: "nat option"
  wsconnection :: "nat option"
  kuduHostName :: string
  port :: nat
  publishCredential :: "string \<times> string"
  keepAlive :: bool
  openSockets :: "nat list"
  clients_made :: nat
  connections_made :: nat
  effects :: "effect list"

definition DebugProxy_new :: "string \<Rightarrow> nat \<Rightarrow> string \<times> string \<Rightarrow> DebugProxy" where
  "DebugProxy_new host prt cred =
     \<lparr> server = Some (), wsclient = None, wsconnection = None,
       kuduHostName = host, port = prt, publishCredential = cred,
       keepAlive = True, openSockets = [],
       clients_made = 0, connections_made = 0, effects = [] \<rparr>"

definition do_effects :: "effect list \<Rightarrow> DebugProxy \<Rightarrow> DebugProxy" where
  "do_effects xs p = p\<lparr> effects := effects p @ xs \<rparr>"

definition destroy_all :: "DebugProxy \<Rightarrow> DebugProxy" where
  "destroy_all p = do_effects (map SocketDestroy (openSockets p)) p"

text \<open>\<open>dispose\<close>: each of the three references is closed and cleared only when it is set.\<close>

definition dispose_connection :: "DebugProxy \<Rightarrow> DebugProxy" where
  "dispose_connection p =
     (case wsconnection p of
        Some c \<Rightarrow> (do_effects [ConnectionClose c] p)\<lparr> wsconnection := None \<rparr>
      | None \<Rightarrow> p)"

definition dispose_client :: "DebugProxy \<Rightarrow> DebugProxy" where
  "dispose_client p =
     (case wsclient p of
        Some k \<Rightarrow> (do_effects [ClientAbort k] p)\<lparr> wsclient := None \<rparr>
      | None \<Rightarrow> p)"

definition dispose_server :: "DebugProxy \<Rightarrow> DebugProxy" where
  "dispose_server p =
     (case server p of
        Some u \<Rightarrow> (do_effects [ServerClose] p)\<lparr> server := None \<rparr>
      | None \<Rightarrow> p)"

definition dispose :: "DebugProxy \<Rightarrow> DebugProxy" where
  "dispose p =
     (destroy_all (dispose_server (dispose_client (dispose_connection p))))
       \<lparr> keepAlive := False \<rparr>"

definition tunnel_url :: "DebugProxy \<Rightarrow> string" where
  "tunnel_url p = ''wss://'' @ kuduHostName p @ ''/AppServiceTunnel/Tunnel.ashx''"

definition tunnel_auth :: "DebugProxy \<Rightarrow> string" where
  "tunnel_auth p = fst (publishCredential p) @ '':'' @ snd (publishCredential p)"

text \<open>
  \<open>startProxy\<close>: without a server an error is emitted. Otherwise a websocket client is
  made, the handlers below are registered, the client is told to connect and the server
  to listen.
\<close>

definition startProxy :: "DebugProxy \<Rightarrow> DebugProxy" where
  "startProxy p =
     (case server p of
        None \<Rightarrow> do_effects [Emit (Error ''Proxy server is not started.'')] p
      | Some u \<Rightarrow>
          (let k = clients_made p;
               p1 = p\<lparr> wsclient := Some k, clients_made := Suc k \<rparr>
           in do_effects
                [ClientConnect k (tunnel_url p1) (tunnel_auth p1), ServerListen (port p1)] p1))"

text \<open>Handlers of the websocket client: \<open>connect\<close> and \<open>connectFailed\<close>.\<close>

definition on_connect :: "DebugProxy \<Rightarrow> DebugProxy" where
  "on_connect p =
     (let c = connections_made p
      in (do_effects [AppendLine WebSocketConnected] p)
           \<lparr> wsconnection := Some c, connections_made := Suc c \<rparr>)"

definition on_connectFailed :: "string \<Rightarrow> DebugProxy \<Rightarrow> DebugProxy" where
  "on_connectFailed err p =
     do_effects [Emit (Error err)]
       (destroy_all (dispose (do_effects [AppendLine (WebSocketFailure err)] p)))"

text \<open>Handlers of the upstream connection: \<open>close\<close>, \<open>error\<close> and \<open>message\<close>.\<close>

definition on_close :: "DebugProxy \<Rightarrow> DebugProxy" where
  "on_close p =
     do_effects [Emit End]
       (destroy_all (dispose (do_effects [AppendLine WebSocketClosed] p)))"

definition on_error :: "string \<Rightarrow> DebugProxy \<Rightarrow> DebugProxy" where
  "on_error err p =
     do_effects [Emit (Error err)]
       (destroy_all (dispose (do_effects [AppendLine (WebSocketFailure err)] p)))"

definition on_message :: "buffer \<Rightarrow> DebugProxy \<Rightarrow> DebugProxy" where
  "on_message binaryData p =
     do_effects (map (\<lambda>socket. SocketWrite socket binaryData) (openSockets p)) p"

text \<open>
  Handlers of the local server: \<open>connection\<close> (the new socket is pushed on
  \<open>openSockets\<close>, from which nothing is ever removed) and \<open>listening\<close>.
\<close>

definition on_connection :: "DebugProxy \<Rightarrow> DebugProxy" where
  "on_connection p =
     (let socket = length (openSockets p)
      in (do_effects [AppendLine (ProxyClientConnected socket)] p)
           \<lparr> openSockets := openSockets p @ [socket] \<rparr>)"

definition on_listening :: "DebugProxy \<Rightarrow> DebugProxy" where
  "on_listening p = do_effects [AppendLine ProxyStartListening, Emit Start] p"

text \<open>Handlers of one accepted socket: \<open>data\<close>, \<open>end\<close> and \<open>error\<close>.\<close>

definition on_data :: "nat \<Rightarrow> buffer \<Rightarrow> DebugProxy \<Rightarrow> DebugProxy" where
  "on_data socket data p =
     (case wsconnection p of
        Some c \<Rightarrow> do_effects [ConnectionSend c data] p
      | None \<Rightarrow> p)"

definition on_end :: "nat \<Rightarrow> DebugProxy \<Rightarrow> DebugProxy" where
  "on_end socket p =
     do_effects [Emit End]
       (dispose (do_effects [AppendLine (ProxyClientDisconnected socket)] p))"

definition on_socket_error :: "nat \<Rightarrow> string \<Rightarrow> DebugProxy \<Rightarrow> DebugProxy" where
  "on_socket_error socket err p =
     do_effects [SocketDestroy socket, Emit (Error err)]
       (dispose (do_effects [AppendLine (ProxyFailure err)] p))"

text \<open>
  What can happen to a started proxy: an event of the runtime reaches its handler, or the
  owner calls \<open>dispose\<close>. \<open>run\<close> feeds a sequence of them to the proxy, in order.
\<close>

datatype input =
    WsConnect
  | WsConnectFailed string
  | ConnClose
  | ConnError string
  | ConnMessage buffer
  | ServerConnection
  | ServerListening
  | SocketData nat buffer
  | SocketEnd nat
  | SocketError nat string
  | CallDispose

fun handle :: "input \<Rightarrow> DebugProxy \<Rightarrow> DebugProxy" where
  "handle WsConnect p = on_connect p"
| "handle (WsConnectFailed err) p = on_connectFailed err p"
| "handle ConnClose p = on_close p"
| "handle (ConnError err) p = on_error err p"
| "handle (ConnMessage m) p = on_message m p"
| "handle ServerConnection p = on_connection p"
| "handle ServerListening p = on_listening p"
| "handle (SocketData socket d) p = on_data socket d p"
| "handle (SocketEnd socket) p = on_end socket p"
| "handle (SocketError socket err) p = on_socket_error socket err p"
| "handle CallDispose p = dispose p"

fun run :: "input list \<Rightarrow> DebugProxy \<Rightarrow> DebugProxy" where
  "run [] p = p"
| "run (e # es) p = run es (handle e p)"

subsection \<open>Notions used to state the properties of the proxy\<close>

text \<open>
  \<open>closing p\<close> is what a call of \<open>dispose\<close> does to the outside in state \<open>p\<close>;
  \<open>emitted e p\<close> is what the handling of \<open>e\<close> in state \<open>p\<close> adds to the effects.
  \<open>proxy_inv\<close> is the invariant behind the idempotence of \<open>dispose\<close>: a reference
  that is still set names an object that has not been closed, and nothing has been closed
  twice. An effect is \<open>neutral\<close> when it closes none of the three.
\<close>

definition closing :: "DebugProxy \<Rightarrow> effect list" where
  "closing p =
     (case wsconnection p of Some c \<Rightarrow> [ConnectionClose c] | None \<Rightarrow> []) @
     (case wsclient p of Some k \<Rightarrow> [ClientAbort k] | None \<Rightarrow> []) @
     (case server p of Some u \<Rightarrow> [ServerClose] | None \<Rightarrow> []) @
     map SocketDestroy (openSockets p)"

definition emitted :: "input \<Rightarrow> DebugProxy \<Rightarrow> effect list" where
  "emitted e p = drop (length (effects p)) (effects (handle e p))"

definition proxy_inv :: "DebugProxy \<Rightarrow> bool" where
  "proxy_inv p \<longleftrightarrow>
     (server p \<noteq> None \<longrightarrow> ServerClose \<notin> set (effects p)) \<and>
     count_list (effects p) ServerClose \<le> 1 \<and>
     (\<forall>k. (ClientAbort k \<in> set (effects p) \<longrightarrow> k < clients_made p) \<and>
          (wsclient p = Some k \<longrightarrow> k < clients_made p \<and> ClientAbort k \<notin> set (effects p)) \<and>
          count_list (effects p) (ClientAbort k) \<le> 1) \<and>
     (\<forall>c. (ConnectionClose c \<in> set (effects p) \<longrightarrow> c < connections_made p) \<and>
          (wsconnection p = Some c \<longrightarrow> c < connections_made p \<and> ConnectionClose c \<notin> set (effects p)) \<and>
          count_list (effects p) (ConnectionClose c) \<le> 1)"

definition neutral :: "effect \<Rightarrow> bool" where
  "neutral x \<longleftrightarrow> x \<noteq> ServerClose \<and> (\<forall>k. x \<noteq> ClientAbort k) \<and> (\<forall>c. x \<noteq> ConnectionClose c)"

definition relaying_example :: DebugProxy where
  "relaying_example =
     run [ServerConnection, ServerConnection, WsConnect]
       (startProxy (DebugProxy_new ''example.scm.azurewebsites.net'' 9229 (''user'', ''secret'')))"

section \<open>Path canonicalisation\<close>

lemma indexOf_from_absent:
  "\<forall>i. \<not> prefix t (drop i s) \<Longrightarrow> indexOf_from s t k = - 1"
proof (induction s arbitrary: k)
  case Nil
  then show ?case by (cases t) auto
next
  case (Cons c cs)
  from Cons.prems have here: "\<not> prefix t (c # cs)"
    by (metis drop0)
  have "\<forall>i. \<not> prefix t (drop i cs)"
  proof
    fix i
    from Cons.prems have "\<not> prefix t (drop (Suc i) (c # cs))" by blast
    then show "\<not> prefix t (drop i cs)" by simp
  qed
  with Cons.IH here show ?case by simp
qed

lemma indexOf_from_here:
  "prefix t s \<Longrightarrow> indexOf_from s t k = int k"
  by (cases s) auto

lemma indexOf_from_first:
  "\<forall>i < length pre. \<not> prefix t (drop i (pre @ t @ rest))
   \<Longrightarrow> indexOf_from (pre @ t @ rest) t k = int (k + length pre)"
proof (induction pre arbitrary: k)
  case Nil
  then show ?case by (simp add: indexOf_from_here)
next
  case (Cons c cs)
  from Cons.prems have here: "\<not> prefix t (c # cs @ t @ rest)"
    by (metis append_Cons drop0 length_greater_0_conv list.distinct(1))
  have "\<forall>i < length cs. \<not> prefix t (drop i (cs @ t @ rest))"
  proof (intro allI impI)
    fix i assume "i < length cs"
    then have "Suc i < length (c # cs)" by simp
    with Cons.prems have "\<not> prefix t (drop (Suc i) ((c # cs) @ t @ rest))" by blast
    then show "\<not> prefix t (drop i (cs @ t @ rest))" by simp
  qed
  from Cons.IH [OF this] here show ?case by simp
qed

text \<open>
  Claim C5, as amended. When \<open>home\<close> first occurs in the path right after \<open>pre\<close>, the
  canonical path is what follows that occurrence and one more character (the separator).
  When \<open>home\<close> does not occur at all, \<open>indexOf\<close> is \<open>-1\<close> and the result is the path
  without its first four characters: a string is returned, no error is raised.
\<close>

theorem entryPath_of_canonical:
  "((\<forall>i < length pre. \<not> prefix home (drop i (pre @ home @ sep # rest))) \<longrightarrow>
      entryPath_of (pre @ home @ sep # rest) = rest) \<and>
   ((\<forall>i. \<not> prefix home (drop i p)) \<longrightarrow>
      indexOf p home = - 1 \<and> entryPath_of p = drop 4 p)"
proof (intro conjI impI)
  assume "\<forall>i < length pre. \<not> prefix home (drop i (pre @ home @ sep # rest))"
  then have "indexOf (pre @ home @ sep # rest) home = int (length pre)"
    using indexOf_from_first [of pre home "sep # rest" 0] by (simp add: indexOf_def)
  then show "entryPath_of (pre @ home @ sep # rest) = rest"
    by (simp add: entryPath_of_def substring_def home_def nat_add_distrib)
next
  assume absent: "\<forall>i. \<not> prefix home (drop i p)"
  then show "indexOf p home = - 1"
    by (simp add: indexOf_def indexOf_from_absent)
  then show "entryPath_of p = drop 4 p"
    by (simp add: entryPath_of_def substring_def home_def min_def)
qed

theorem entryPath_of_canonical_witness:
  "entryPath_of ''/home/site/wwwroot/app.js'' = ''site/wwwroot/app.js'' \<and>
   indexOf ''D:/x'' home = - 1 \<and> entryPath_of ''D:/x'' = []"
proof -
  have a: "\<forall>i < length ''/''. \<not> prefix home (drop i (''/'' @ home @ CHR ''/'' # ''site/wwwroot/app.js''))"
    by (simp add: home_def)
  have b: "\<forall>i. \<not> prefix home (drop i ''D:/x'')"
  proof
    fix i :: nat
    consider "i = 0" | "i = 1" | "i = 2" | "i = 3" | "4 \<le> i" by linarith
    then show "\<not> prefix home (drop i ''D:/x'')"
      by cases (simp_all add: home_def)
  qed
  from entryPath_of_canonical [of "''/''" "CHR ''/''" "''site/wwwroot/app.js''" "''D:/x''"] a b
  show ?thesis by (simp add: home_def)
qed

text \<open>
  On a path without \<open>home\<close> the constructor returns a path: the listed path without its
  first four characters.
\<close>

theorem entryPath_of_no_sentinel:
  "indexOf ''D:/local/Temp/trace.log'' home = - 1 \<and>
   entryPath_of ''D:/local/Temp/trace.log'' = ''ocal/Temp/trace.log''"
  by (simp add: entryPath_of_def indexOf_def substring_def home_def)

section \<open>The tunnel proxy\<close>

lemma do_effects_fields [simp]:
  "effects (do_effects xs p) = effects p @ xs"
  "server (do_effects xs p) = server p"
  "wsclient (do_effects xs p) = wsclient p"
  "wsconnection (do_effects xs p) = wsconnection p"
  "openSockets (do_effects xs p) = openSockets p"
  "clients_made (do_effects xs p) = clients_made p"
  "connections_made (do_effects xs p) = connections_made p"
  by (simp_all add: do_effects_def)

lemma dispose_fields [simp]:
  "effects (dispose p) = effects p @ closing p"
  "server (dispose p) = None"
  "wsclient (dispose p) = None"
  "wsconnection (dispose p) = None"
  "openSockets (dispose p) = openSockets p"
  "clients_made (dispose p) = clients_made p"
  "connections_made (dispose p) = connections_made p"
  by (simp_all add: dispose_def destroy_all_def dispose_server_def dispose_client_def
      dispose_connection_def closing_def split: option.splits)

lemma destroy_all_fields [simp]:
  "effects (destroy_all p) = effects p @ map SocketDestroy (openSockets p)"
  "server (destroy_all p) = server p"
  "wsclient (destroy_all p) = wsclient p"
  "wsconnection (destroy_all p) = wsconnection p"
  "openSockets (destroy_all p) = openSockets p"
  "clients_made (destroy_all p) = clients_made p"
  "connections_made (destroy_all p) = connections_made p"
  by (simp_all add: destroy_all_def)

lemmas handler_defs =
  on_connect_def on_connectFailed_def on_close_def on_error_def on_message_def
  on_connection_def on_listening_def on_data_def on_end_def on_socket_error_def

lemma Start_notin_closing [simp]: "Emit ev \<notin> set (closing p)"
  by (auto simp: closing_def split: option.splits)

text \<open>
  Claim C2, as amended. The proxy signals readiness (it emits \<open>start\<close>) exactly when
  the local server reports \<open>listening\<close>, whatever the state of the upstream connection:
  handling \<open>listening\<close> adds the log line and the \<open>start\<close> event, and the handling of
  no other event emits \<open>start\<close>.
\<close>

theorem ready_signal_on_listening:
  "(Emit Start \<in> set (emitted e p) \<longleftrightarrow> e = ServerListening) \<and>
   emitted ServerListening p = [AppendLine ProxyStartListening, Emit Start]"
  by (cases e) (auto simp: emitted_def handler_defs Let_def split: option.splits)

text \<open>
  A started proxy whose listener reports \<open>listening\<close> before the upstream connection
  exists has signalled readiness with no upstream connection.
\<close>

theorem ready_without_upstream:
  "wsconnection (run [ServerListening] (startProxy (DebugProxy_new ''h'' 9229 (''u'', ''p'')))) = None \<and>
   Emit Start \<in> set (effects (run [ServerListening] (startProxy (DebugProxy_new ''h'' 9229 (''u'', ''p'')))))"
  by (simp add: DebugProxy_new_def startProxy_def handler_defs Let_def do_effects_def)

lemma count_list_neutral:
  "\<forall>x \<in> set xs. neutral x \<Longrightarrow> \<not> neutral y \<Longrightarrow> count_list xs y = 0"
  by (induction xs) auto

lemma proxy_inv_do_effects:
  assumes "proxy_inv p" "\<forall>x \<in> set xs. neutral x"
  shows "proxy_inv (do_effects xs p)"
proof -
  have a: "count_list xs ServerClose = 0" "\<And>k. count_list xs (ClientAbort k) = 0"
    "\<And>c. count_list xs (ConnectionClose c) = 0"
    using assms(2) by (auto intro!: count_list_neutral simp: neutral_def)
  then have b: "ServerClose \<notin> set xs" "\<And>k. ClientAbort k \<notin> set xs"
    "\<And>c. ConnectionClose c \<notin> set xs"
    by (simp_all add: count_list_0_iff)
  show ?thesis using assms(1) a b by (simp add: proxy_inv_def)
qed

lemma proxy_inv_destroy_all: "proxy_inv p \<Longrightarrow> proxy_inv (destroy_all p)"
  unfolding destroy_all_def by (rule proxy_inv_do_effects) (auto simp: neutral_def)

lemma count_list_notin: "x \<notin> set xs \<Longrightarrow> count_list xs x = 0"
  by (simp add: count_list_0_iff)

lemma proxy_inv_dispose_connection: "proxy_inv p \<Longrightarrow> proxy_inv (dispose_connection p)"
  by (cases "wsconnection p")
     (auto simp: proxy_inv_def dispose_connection_def do_effects_def count_list_notin)

lemma proxy_inv_dispose_client: "proxy_inv p \<Longrightarrow> proxy_inv (dispose_client p)"
  by (cases "wsclient p")
     (auto simp: proxy_inv_def dispose_client_def do_effects_def count_list_notin)

lemma proxy_inv_dispose_server: "proxy_inv p \<Longrightarrow> proxy_inv (dispose_server p)"
  by (cases "server p")
     (auto simp: proxy_inv_def dispose_server_def do_effects_def count_list_notin)

lemma proxy_inv_keepAlive: "proxy_inv (p\<lparr> keepAlive := b \<rparr>) = proxy_inv p"
  by (simp add: proxy_inv_def)

lemma proxy_inv_dispose: "proxy_inv p \<Longrightarrow> proxy_inv (dispose p)"
  unfolding dispose_def proxy_inv_keepAlive
  by (intro proxy_inv_destroy_all proxy_inv_dispose_server proxy_inv_dispose_client
      proxy_inv_dispose_connection)

lemma proxy_inv_handle: "proxy_inv p \<Longrightarrow> proxy_inv (handle e p)"
proof (cases e)
  case WsConnect
  assume "proxy_inv p"
  then show ?thesis using WsConnect
    by (auto simp: proxy_inv_def on_connect_def Let_def less_Suc_eq)
next
  case ServerConnection
  assume "proxy_inv p"
  then show ?thesis using ServerConnection
    by (auto simp: proxy_inv_def on_connection_def Let_def)
qed (auto simp: handler_defs neutral_def split: option.splits
      intro!: proxy_inv_do_effects proxy_inv_destroy_all proxy_inv_dispose)

lemma proxy_inv_run: "proxy_inv p \<Longrightarrow> proxy_inv (run es p)"
  by (induction es arbitrary: p) (auto simp: proxy_inv_handle)

lemma proxy_inv_start: "proxy_inv (startProxy (DebugProxy_new h prt cred))"
  by (simp add: proxy_inv_def startProxy_def DebugProxy_new_def Let_def do_effects_def)

text \<open>
  Claim C7. Whatever events reach a started proxy and however often \<open>dispose\<close> is
  called (by the owner or by the handlers of upstream close, upstream error, connect
  failure, socket end and socket error), the server is closed at most once, every websocket
  client is aborted at most once and every upstream connection is closed at most once.
  After \<open>dispose\<close> the three references are cleared, and a second \<open>dispose\<close> only
  destroys the sockets again.
\<close>

theorem dispose_idempotent:
  "count_list (effects (run es (startProxy (DebugProxy_new h prt cred)))) ServerClose \<le> 1 \<and>
   (\<forall>k. count_list (effects (run es (startProxy (DebugProxy_new h prt cred)))) (ClientAbort k) \<le> 1) \<and>
   (\<forall>c. count_list (effects (run es (startProxy (DebugProxy_new h prt cred)))) (ConnectionClose c) \<le> 1) \<and>
   server (dispose p) = None \<and> wsclient (dispose p) = None \<and> wsconnection (dispose p) = None \<and>
   effects (dispose (dispose p)) = effects (dispose p) @ map SocketDestroy (openSockets p)"
proof -
  have "proxy_inv (run es (startProxy (DebugProxy_new h prt cred)))"
    by (rule proxy_inv_run) (rule proxy_inv_start)
  then show ?thesis by (simp add: proxy_inv_def closing_def)
qed

lemma openSockets_handle:
  "openSockets (handle e p) =
     (if e = ServerConnection then openSockets p @ [length (openSockets p)] else openSockets p)"
  by (cases e) (auto simp: handler_defs Let_def split: option.splits)

lemma openSockets_run:
  "openSockets p = [0..<n] \<Longrightarrow> openSockets (run es p) = [0..<n + count_list es ServerConnection]"
proof (induction es arbitrary: p n)
  case Nil
  then show ?case by simp
next
  case (Cons e es)
  show ?case
  proof (cases "e = ServerConnection")
    case True
    with Cons.prems have "openSockets (handle e p) = [0..<Suc n]"
      by (simp add: on_connection_def Let_def)
    from Cons.IH [OF this] True show ?thesis by simp
  next
    case False
    with Cons.prems have "openSockets (handle e p) = [0..<n]"
      by (simp add: openSockets_handle)
    from Cons.IH [OF this] False show ?thesis by simp
  qed
qed

lemma openSockets_start: "openSockets (startProxy (DebugProxy_new h prt cred)) = [0..<0]"
  by (simp add: startProxy_def DebugProxy_new_def Let_def do_effects_def)

text \<open>
  Claim C3. With an upstream connection \<open>c\<close>, a chunk that arrives on a local socket is
  sent as one upstream message, the chunk itself, and nothing else changes. An upstream
  message is written once to each socket of \<open>openSockets\<close>, in order, and nothing else
  changes; in a started proxy \<open>openSockets\<close> holds every socket accepted so far, each
  once (socket \<open>k\<close> is the one the \<open>k\<close>-th \<open>connection\<close> event brought).
\<close>

theorem relay_one_to_one:
  "(wsconnection p = Some c \<longrightarrow>
      handle (SocketData socket d) p = do_effects [ConnectionSend c d] p) \<and>
   handle (ConnMessage m) p = do_effects (map (\<lambda>k. SocketWrite k m) (openSockets p)) p \<and>
   openSockets (run es (startProxy (DebugProxy_new h prt cred))) = [0..<count_list es ServerConnection]"
  using openSockets_run [OF openSockets_start, of es h prt cred]
  by (simp add: on_data_def on_message_def)

theorem relay_one_to_one_witness:
  "wsconnection relaying_example = Some 0 \<and>
   effects (handle (SocketData 1 ''ab'') relaying_example) =
     effects relaying_example @ [ConnectionSend 0 ''ab''] \<and>
   effects (handle (ConnMessage ''xy'') relaying_example) =
     effects relaying_example @ [SocketWrite 0 ''xy'', SocketWrite 1 ''xy'']"
  using relay_one_to_one [of relaying_example 0 1 "''ab''" "''xy''" "[]" "''h''" 0 "(''u'', ''p'')"]
  by (simp add: relaying_example_def DebugProxy_new_def startProxy_def handler_defs Let_def
      do_effects_def)

text \<open>
  Claim C10. Without an upstream connection, a chunk that arrives on a local socket
  leaves the proxy exactly as it was: nothing is sent, nothing is emitted, nothing is kept
  of the chunk, so whatever happens afterwards happens as if the chunk had never arrived.
\<close>

theorem data_without_upstream_dropped:
  "wsconnection p = None \<longrightarrow>
     handle (SocketData socket d) p = p \<and> run (SocketData socket d # es) p = run es p"
  by (simp add: on_data_def)

theorem data_without_upstream_dropped_witness:
  "wsconnection (startProxy (DebugProxy_new ''h'' 9229 (''u'', ''p''))) = None \<and>
   handle (SocketData 0 ''ab'') (startProxy (DebugProxy_new ''h'' 9229 (''u'', ''p''))) =
     startProxy (DebugProxy_new ''h'' 9229 (''u'', ''p'')) \<and>
   run [SocketData 0 ''ab'', WsConnect] (startProxy (DebugProxy_new ''h'' 9229 (''u'', ''p''))) =
     run [WsConnect] (startProxy (DebugProxy_new ''h'' 9229 (''u'', ''p'')))"
  using data_without_upstream_dropped
    [of "startProxy (DebugProxy_new ''h'' 9229 (''u'', ''p''))" 0 "''ab''" "[WsConnect]"]
  by (simp add: DebugProxy_new_def startProxy_def Let_def do_effects_def)

section \<open>The file system provider\<close>

lemma await_simps [simp]:
  "await (throw e) f = throw e"
  "await (return x) f = f x"
  "throw e s = (Inl e, s)"
  "return x s = (Inr x, s)"
  by (simp_all add: await_def throw_def return_def fun_eq_iff)

lemma await_Inl: "m s = (Inl e, s') \<Longrightarrow> await m f s = (Inl e, s')"
  by (simp add: await_def)



lemmas example_defs =
  example_env_def example_site_def posix_dirname_def AppServiceFS_new_def

lemmas string_defs =
  match_here_def lit_def segment_def not_slash_def line_terminator_def split_def
  endsWith_slash_def entryPath_of_def indexOf_def substring_def home_def
  File_new_def Directory_new_def directoryMime_def

text \<open>
  Claim C6. In read-only mode \<open>writeFile\<close>, \<open>delete\<close> and \<open>createDirectory\<close>
  fail with \<open>NoPermissions\<close> and leave the state as it was; the record of the remote
  calls is part of the state, so no remote call was made.
\<close>

theorem readonly_rejects_mutations:
  "readonly s \<longrightarrow>
     writeFile E uri content s = (Inl NoPermissions, s) \<and>
     delete E uri recursive s = (Inl NoPermissions, s) \<and>
     createDirectory E uri s = (Inl NoPermissions, s)"
  by (simp add: writeFile_def delete_def createDirectory_def)

theorem readonly_rejects_mutations_witness:
  "readonly (AppServiceFS_new True ''v1'') \<and>
   writeFile (example_env True) (example_site @ ''/site/a.txt'') ''new'' (AppServiceFS_new True ''v1'') =
     (Inl NoPermissions, AppServiceFS_new True ''v1'') \<and>
   delete (example_env True) (example_site @ ''/site/a.txt'') False (AppServiceFS_new True ''v1'') =
     (Inl NoPermissions, AppServiceFS_new True ''v1'') \<and>
   createDirectory (example_env True) (example_site @ ''/site/d'') (AppServiceFS_new True ''v1'') =
     (Inl NoPermissions, AppServiceFS_new True ''v1'') \<and>
   calls (AppServiceFS_new True ''v1'') = []"
  using readonly_rejects_mutations
    [of "AppServiceFS_new True ''v1''" "example_env True" "example_site @ ''/site/a.txt''" "''new''" False]
    readonly_rejects_mutations
    [of "AppServiceFS_new True ''v1''" "example_env True" "example_site @ ''/site/d''" "''new''" False]
  by (simp add: AppServiceFS_new_def)

text \<open>
  Claim C8, as amended. \<open>rename\<close> always fails and makes no remote call, whatever the
  URIs and the options: with \<open>NoPermissions\<close> when the provider is read-only, and with
  the plain error \<open>Method not implemented.\<close> otherwise.
\<close>

theorem rename_fails:
  "rename E oldUri newUri overwrite s =
     (Inl (if readonly s then NoPermissions else PlainError ''Method not implemented.''), s) \<and>
   calls (snd (rename E oldUri newUri overwrite s)) = calls s"
  by (simp add: rename_def)

text \<open>
  On a read-only provider \<open>rename\<close> fails with \<open>NoPermissions\<close>, which is not the
  error of an operation that is not implemented.
\<close>

theorem rename_readonly_NoPermissions:
  "fst (rename (example_env True) (example_site @ ''/a'') (example_site @ ''/b'') False
         (AppServiceFS_new True ''v1'')) = Inl NoPermissions \<and>
   NoPermissions \<noteq> PlainError ''Method not implemented.''"
  by (simp add: rename_def AppServiceFS_new_def)

lemma parse_malformed:
  "uri_match uri = None \<Longrightarrow> parseAppServiceUri E uri s = (Inl FileNotFound, s)"
  by (simp add: parseAppServiceUri_def)

lemma parse_unresolved:
  "uri_match uri = Some (siteId, entryPath) \<Longrightarrow> findNode E siteId = None \<Longrightarrow>
   parseAppServiceUri E uri s = (Inl Unavailable, s)"
  by (simp add: parseAppServiceUri_def)

text \<open>
  Claim C9, as amended. An operation on a URI whose path does not match the pattern of
  a site fails with \<open>FileNotFound\<close>; an operation on a URI whose path matches and whose
  site id resolves to no node fails with \<open>Unavailable\<close>. In both cases the state is
  left as it was. This holds for \<open>stat\<close>, \<open>readDirectory\<close> and \<open>readFile\<close>, and, on
  a provider that is not read-only, for \<open>writeFile\<close>, \<open>createDirectory\<close> and
  \<open>delete\<close>.
\<close>

theorem parse_failures:
  "(uri_match uri = None \<longrightarrow>
      stat E uri s = (Inl FileNotFound, s) \<and>
      readDirectory E uri s = (Inl FileNotFound, s) \<and>
      readFile E uri s = (Inl FileNotFound, s) \<and>
      (\<not> readonly s \<longrightarrow>
         writeFile E uri content s = (Inl FileNotFound, s) \<and>
         createDirectory E uri s = (Inl FileNotFound, s) \<and>
         delete E uri recursive s = (Inl FileNotFound, s))) \<and>
   (uri_match uri = Some (siteId, entryPath) \<and> findNode E siteId = None \<longrightarrow>
      stat E uri s = (Inl Unavailable, s) \<and>
      readDirectory E uri s = (Inl Unavailable, s) \<and>
      readFile E uri s = (Inl Unavailable, s) \<and>
      (\<not> readonly s \<longrightarrow>
         writeFile E uri content s = (Inl Unavailable, s) \<and>
         createDirectory E uri s = (Inl Unavailable, s) \<and>
         delete E uri recursive s = (Inl Unavailable, s)))"
  by (simp add: stat_def readDirectory_def readFile_def writeFile_def createDirectory_def
      delete_def await_Inl parse_malformed parse_unresolved)


theorem parse_failures_witness:
  "uri_match ''/not/a/site'' = None \<and>
   stat (example_env True) ''/not/a/site'' (AppServiceFS_new False ''v1'') =
     (Inl FileNotFound, AppServiceFS_new False ''v1'') \<and>
   writeFile (example_env True) ''/not/a/site'' ''new'' (AppServiceFS_new False ''v1'') =
     (Inl FileNotFound, AppServiceFS_new False ''v1'') \<and>
   uri_match ''/subscriptions/s1/resourceGroups/rg1/providers/Microsoft.Web/sites/gone/a.txt'' =
     Some (''/subscriptions/s1/resourceGroups/rg1/providers/Microsoft.Web/sites/gone'', ''a.txt'') \<and>
   findNode (example_env True)
     ''/subscriptions/s1/resourceGroups/rg1/providers/Microsoft.Web/sites/gone'' = None \<and>
   stat (example_env True)
     ''/subscriptions/s1/resourceGroups/rg1/providers/Microsoft.Web/sites/gone/a.txt''
     (AppServiceFS_new False ''v1'') = (Inl Unavailable, AppServiceFS_new False ''v1'') \<and>
   delete (example_env True)
     ''/subscriptions/s1/resourceGroups/rg1/providers/Microsoft.Web/sites/gone/a.txt'' False
     (AppServiceFS_new False ''v1'') = (Inl Unavailable, AppServiceFS_new False ''v1'')"
proof -
  have a: "uri_match ''/not/a/site'' = None"
    by (simp add: string_defs)
  have b: "uri_match ''/subscriptions/s1/resourceGroups/rg1/providers/Microsoft.Web/sites/gone/a.txt'' =
     Some (''/subscriptions/s1/resourceGroups/rg1/providers/Microsoft.Web/sites/gone'', ''a.txt'')"
    by (simp add: string_defs)
  have c: "findNode (example_env True)
     ''/subscriptions/s1/resourceGroups/rg1/providers/Microsoft.Web/sites/gone'' = None"
    by (simp add: example_defs)
  have d: "\<not> readonly (AppServiceFS_new False ''v1'')"
    by (simp add: AppServiceFS_new_def)
  from a d parse_failures
    [of "''/not/a/site''" "example_env True" "AppServiceFS_new False ''v1''" "''new''" False]
  have "stat (example_env True) ''/not/a/site'' (AppServiceFS_new False ''v1'') =
          (Inl FileNotFound, AppServiceFS_new False ''v1'') \<and>
        writeFile (example_env True) ''/not/a/site'' ''new'' (AppServiceFS_new False ''v1'') =
          (Inl FileNotFound, AppServiceFS_new False ''v1'')"
    by blast
  moreover from b c d parse_failures
    [of "''/subscriptions/s1/resourceGroups/rg1/providers/Microsoft.Web/sites/gone/a.txt''"
        "example_env True" "AppServiceFS_new False ''v1''" "''new''" False
        "''/subscriptions/s1/resourceGroups/rg1/providers/Microsoft.Web/sites/gone''" "''a.txt''"]
  have "stat (example_env True)
          ''/subscriptions/s1/resourceGroups/rg1/providers/Microsoft.Web/sites/gone/a.txt''
          (AppServiceFS_new False ''v1'') = (Inl Unavailable, AppServiceFS_new False ''v1'') \<and>
        delete (example_env True)
          ''/subscriptions/s1/resourceGroups/rg1/providers/Microsoft.Web/sites/gone/a.txt'' False
          (AppServiceFS_new False ''v1'') = (Inl Unavailable, AppServiceFS_new False ''v1'')"
    by blast
  ultimately show ?thesis using a b c by blast
qed

text \<open>
  A URI whose path is not that of a site makes \<open>stat\<close> fail with \<open>FileNotFound\<close>,
  which is not \<open>Unavailable\<close>.
\<close>

theorem malformed_uri_FileNotFound:
  "fst (stat (example_env True) ''/not/a/site'' (AppServiceFS_new False ''v1'')) = Inl FileNotFound \<and>
   FileNotFound \<noteq> Unavailable"
  by (simp add: stat_def parse_malformed await_Inl string_defs)

subsection \<open>The order of mutation and refresh\<close>

lemma awaitE:
  assumes "await m f s = (r, s')"
  obtains (fail) e where "m s = (Inl e, s')" "r = Inl e"
        | (ok) x s1 where "m s = (Inr x, s1)" "f x s1 = (r, s')"
  using assms by (auto simp: await_def split: prod.splits sum.splits)

lemma remote_opD:
  "remote_op c f s = (r, s') \<Longrightarrow>
     r = fst (f (remote s)) \<and>
     s' = s\<lparr> remote := snd (f (remote s)), calls := calls s @ [(c, \<not> isl r)] \<rparr>"
  by (auto simp: remote_op_def split: prod.splits)

lemma cached_kept_refl [simp]: "cached_kept s s"
  by (simp add: cached_kept_def)


lemma reads_only_refl [simp]: "reads_only s s"
  by (simp add: reads_only_def)


lemma log_grows_refl [simp]: "log_grows s s"
  by (simp add: log_grows_def)



lemma add_entries_heap: "\<exists>xs. snd (add_entries fileList es h) = h @ xs"
proof (induction fileList arbitrary: es h)
  case Nil
  then show ?case by simp
next
  case (Cons f fs)
  obtain xs where
    "snd (add_entries fs (AList.update (kf_name f) (length h) es)
            (h @ [if kf_mime f = ''inode/directory'' then Directory_new f else File_new f]))
     = (h @ [if kf_mime f = ''inode/directory'' then Directory_new f else File_new f]) @ xs"
    using Cons.IH by blast
  then show ?case by simp
qed

lemma cached_kept_append:
  "heap s' = heap s @ xs \<Longrightarrow> roots s' = roots s \<Longrightarrow> cached_kept s s'"
  by (simp add: cached_kept_def nth_append)

lemma actuallyRefreshEntries_reads:
  assumes "actuallyRefreshEntries E kuduClient this s = (r, s')"
  shows "reads_only s s'"
proof -
  from assms have
    "await (remote_op (GetItem kuduClient (e_entryPath (heap s ! this)))
              (\<lambda>rem. vfs_getItem E rem kuduClient (e_entryPath (heap s ! this))))
       (\<lambda>fileList s'. case add_entries fileList [] (heap s') of
                        (es, h) \<Rightarrow> (Inr es, s'\<lparr> heap := h \<rparr>)) s = (r, s')"
    by (simp add: actuallyRefreshEntries_def)
  then show ?thesis
  proof (cases rule: awaitE)
    case (fail e)
    from remote_opD [OF fail(1)] show ?thesis
      by (auto simp: reads_only_def mutation_def cached_kept_def)
  next
    case (ok fileList s1)
    from remote_opD [OF ok(1)] have s1:
      "calls s1 = calls s @ [(GetItem kuduClient (e_entryPath (heap s ! this)), True)]"
      "heap s1 = heap s" "roots s1 = roots s" "etags s1 = etags s" "readonly s1 = readonly s"
      by auto
    obtain xs where xs: "snd (add_entries fileList [] (heap s1)) = heap s1 @ xs"
      using add_entries_heap by blast
    from ok(2) xs have s': "s' = s1\<lparr> heap := heap s1 @ xs \<rparr>"
      by (auto split: prod.splits)
    have "cached_kept s s'"
      by (rule cached_kept_append [of _ _ xs]) (simp_all add: s' s1)
    then show ?thesis
      by (simp add: reads_only_def s' s1 mutation_def)
  qed
qed

lemma refreshEntries_uncached_reads:
  assumes "refreshEntries E kuduClient this s = (r, s')" "entries (heap s ! this) = None"
  shows "reads_only s s'"
proof -
  from assms(1) have
    "await (actuallyRefreshEntries E kuduClient this)
       (\<lambda>result s. (Inr result,
           s\<lparr> heap := (heap s)[this := (heap s ! this)\<lparr> entries := Some result \<rparr>] \<rparr>)) s = (r, s')"
    by (simp add: refreshEntries_def)
  then show ?thesis
  proof (cases rule: awaitE)
    case (fail e)
    then show ?thesis by (simp add: actuallyRefreshEntries_reads)
  next
    case (ok result s1)
    have a: "reads_only s s1" using ok(1) by (rule actuallyRefreshEntries_reads)
    from ok(2) have s': "s' = s1\<lparr> heap := (heap s1)[this := (heap s1 ! this)\<lparr> entries := Some result \<rparr>] \<rparr>"
      by simp
    have "cached_kept s s'"
      unfolding cached_kept_def
    proof (intro conjI allI impI)
      show "length (heap s) \<le> length (heap s')"
        using a by (simp add: s' reads_only_def cached_kept_def)
    next
      fix b assume b: "b < length (heap s)" "entries (heap s ! b) \<noteq> None"
      with assms(2) have "b \<noteq> this" by auto
      then have "heap s' ! b = heap s1 ! b" by (simp add: s')
      with a b show "entries (heap s' ! b) = entries (heap s ! b)"
        by (simp add: reads_only_def cached_kept_def)
    next
      fix client root assume "map_of (roots s) client = Some root"
      with a show "map_of (roots s') client = Some root"
        by (simp add: s' reads_only_def cached_kept_def)
    qed
    with a show ?thesis by (simp add: reads_only_def s')
  qed
qed


lemma getEntries_reads:
  assumes "getEntries E kuduClient this s = (r, s')"
  shows "reads_only s s'"
  using assms
  by (cases "entries (heap s ! this)") (auto simp: getEntries_def dest: refreshEntries_uncached_reads)



























section \<open>Concurrent refreshes\<close>

lemma steps_append: "steps (xs @ ys) d = steps ys (steps xs d)"
  by (induction xs arbitrary: d) auto

lemma one_refresh_fresh: "one_refresh m Directory_fresh"
  by (simp add: one_refresh_def Directory_fresh_def)

lemma one_refresh_call:
  assumes "one_refresh m d"
  shows "one_refresh m (call_getEntries c d)"
proof (cases "d_entries d")
  case (Some x)
  with assms show ?thesis
    by (auto simp: one_refresh_def call_getEntries_def)
next
  case None
  show ?thesis
  proof (cases "d_refreshingTask d")
    case (Some t)
    with None assms show ?thesis
      by (auto simp: one_refresh_def call_getEntries_def call_refreshEntries_def)
  next
    case noTask: None
    with None assms have "d_promises d = []"
      by (auto simp: one_refresh_def)
    with None noTask assms show ?thesis
      by (auto simp: one_refresh_def call_getEntries_def call_refreshEntries_def)
  qed
qed

lemma one_refresh_listing:
  assumes "one_refresh m d"
  shows "one_refresh m (listing_done t (Inr m) d)"
proof (cases "t < length (d_promises d) \<and> d_promises d ! t = Pending")
  case True
  have "set ((d_promises d)[t := Fulfilled m]) \<subseteq> insert (Fulfilled m) (set (d_promises d))"
    by (rule set_update_subset_insert)
  with True assms show ?thesis
    by (auto simp: one_refresh_def listing_done_def)
next
  case False
  with assms show ?thesis by (auto simp: listing_done_def)
qed

lemma one_refresh_finish:
  assumes "one_refresh m d"
  shows "one_refresh m (finish c b (Inr m) d)"
  using assms by (cases b) (auto simp: one_refresh_def finish_def)

lemma one_refresh_resume:
  assumes "one_refresh m d"
  shows "one_refresh m (resume c d)"
proof (cases "d_suspended d c")
  case None
  with assms show ?thesis by (simp add: resume_def)
next
  case (Some tb)
  obtain t b where tb: "tb = (t, b)" by (cases tb)
  show ?thesis
  proof (cases "t < length (d_promises d)")
    case True
    then have "d_promises d ! t \<in> set (d_promises d)" by simp
    with assms have "d_promises d ! t = Pending \<or> d_promises d ! t = Fulfilled m"
      by (auto simp: one_refresh_def)
    with Some tb True assms show ?thesis
      by (auto simp: resume_def one_refresh_finish)
  next
    case False
    with Some tb assms show ?thesis by (simp add: resume_def)
  qed
qed

lemma one_refresh_step: "one_refresh m d \<Longrightarrow> reading m e \<Longrightarrow> one_refresh m (do_step e d)"
  by (cases e) (auto simp: reading_def one_refresh_call one_refresh_listing one_refresh_resume)

lemma one_refresh_steps:
  "one_refresh m d \<Longrightarrow> \<forall>e \<in> set evs. reading m e \<Longrightarrow> one_refresh m (steps evs d)"
  by (induction evs arbitrary: d) (auto simp: one_refresh_step)

lemma waiting_first: "waiting c0 {} (call_getEntries c0 Directory_fresh)"
  by (simp add: waiting_def call_getEntries_def call_refreshEntries_def Directory_fresh_def)

lemma waiting_join: "waiting c0 S d \<Longrightarrow> c \<noteq> c0 \<Longrightarrow> waiting c0 (insert c S) (call_getEntries c d)"
  by (auto simp: waiting_def call_getEntries_def call_refreshEntries_def)

lemma waiting_calls:
  "waiting c0 S d \<Longrightarrow> c0 \<notin> set cs \<Longrightarrow>
   waiting c0 (S \<union> set cs) (steps (map Call_getEntries cs) d)"
proof (induction cs arbitrary: S d)
  case Nil
  then show ?case by simp
next
  case (Cons c cs)
  from Cons.prems have "waiting c0 (insert c S) (call_getEntries c d)"
    by (intro waiting_join) auto
  from Cons.IH [OF this] Cons.prems(2) show ?case by simp
qed

lemma waiting_settled:
  "waiting c0 S d \<Longrightarrow> settled c0 (insert c0 S) outcome (listing_done 0 outcome d)"
  by (auto simp: waiting_def settled_def listing_done_def settle_def)

lemma settled_resume:
  assumes "settled c0 A outcome d"
  shows "settled c0 A outcome (resume c d) \<and> d_suspended (resume c d) c = None \<and>
         (\<forall>c'. d_suspended d c' = None \<longrightarrow> d_suspended (resume c d) c' = None)"
proof (cases "d_suspended d c")
  case None
  with assms show ?thesis by (simp add: resume_def)
next
  case (Some tb)
  from assms have
    "d_suspended d c = None \<or>
     (c \<in> A \<and> d_suspended d c = Some (0, if c = c0 then Starter else Joiner))"
    unfolding settled_def by blast
  with Some have tb: "tb = (0, if c = c0 then Starter else Joiner)" and cA: "c \<in> A"
    by auto
  from assms have p: "d_promises d = [settle outcome]" by (simp add: settled_def)
  show ?thesis
  proof (cases outcome)
    case (Inl e)
    with Some tb p have "resume c d = finish c (if c = c0 then Starter else Joiner) (Inl e) d"
      by (simp add: resume_def settle_def)
    with assms Some tb cA Inl show ?thesis
      by (auto simp: settled_def finish_def stored_def split: if_splits)
  next
    case (Inr m)
    with Some tb p have "resume c d = finish c (if c = c0 then Starter else Joiner) (Inr m) d"
      by (simp add: resume_def settle_def)
    with assms Some tb cA Inr show ?thesis
      by (auto simp: settled_def finish_def stored_def split: if_splits)
  qed
qed

lemma settled_resumes:
  "settled c0 A outcome d \<Longrightarrow>
   settled c0 A outcome (steps (map Resume rs) d) \<and>
   (\<forall>c. c \<in> set rs \<or> d_suspended d c = None \<longrightarrow> d_suspended (steps (map Resume rs) d) c = None)"
proof (induction rs arbitrary: d)
  case Nil
  then show ?case by simp
next
  case (Cons r rs)
  from settled_resume [OF Cons.prems, of r] have
    a: "settled c0 A outcome (resume r d)" and b: "d_suspended (resume r d) r = None"
    and c: "\<forall>c'. d_suspended d c' = None \<longrightarrow> d_suspended (resume r d) c' = None"
    by auto
  from Cons.IH [OF a] b c show ?case by auto
qed

lemma N_callers:
  fixes outcome :: "fs_error + 'm"
  assumes "cs \<noteq> []" "distinct cs" "set cs \<subseteq> set rs"
  defines "d' \<equiv> steps (map Call_getEntries cs @ Listing_done 0 outcome # map Resume rs) Directory_fresh"
  shows "d_listings d' = 1 \<and> (\<forall>c. c \<in> set cs \<longrightarrow> d_returned d' c = Some outcome) \<and>
         d_entries d' = stored outcome \<and> d_refreshingTask d' = None \<and> d_promises d' = [settle outcome]"
proof -
  from assms(1) obtain c0 cs' where cs: "cs = c0 # cs'" by (cases cs) auto
  with assms(2) have c0: "c0 \<notin> set cs'" by simp
  have "waiting c0 ({} \<union> set cs') (steps (map Call_getEntries cs') (call_getEntries c0 Directory_fresh))"
    using waiting_first c0 by (rule waiting_calls)
  then have "settled c0 (insert c0 (set cs')) outcome
        (listing_done 0 outcome (steps (map Call_getEntries cs') (call_getEntries c0 Directory_fresh)))"
    using waiting_settled [of c0 "set cs'" _ outcome] by simp
  from settled_resumes [OF this, of rs]
  have s: "settled c0 (set cs) outcome d'"
    and n: "\<forall>c. c \<in> set rs \<longrightarrow> d_suspended d' c = None"
    by (auto simp: d'_def cs steps_append)
  from n assms(3) have "\<forall>c \<in> set cs. d_suspended d' c = None" by auto
  moreover from this have "d_suspended d' c0 = None" by (simp add: cs)
  ultimately show ?thesis using s by (auto simp: settled_def)
qed

text \<open>
  Claim C1. (1) A call of \<open>refreshEntries\<close> that finds a refresh \<open>t\<close> in flight
  only suspends the caller on that same promise: no listing is requested. (2) In every
  interleaving of calls of \<open>getEntries\<close> (the calls \<open>readDirectory\<close> and \<open>stat\<close>
  make), resumptions and a listing that comes back with the map \<open>m\<close>, on a directory
  that starts without cached children, at most one listing is requested and every caller
  that has returned has got \<open>m\<close>. (3) When the distinct callers \<open>cs\<close> (at least one)
  all call before the listing is back and are then resumed, in any order \<open>rs\<close>, exactly
  one listing was requested, every one of them has returned the one outcome of that
  listing, \<open>_entries\<close> holds the map when there is one, and \<open>_refreshingTask\<close> is
  cleared, so that the next call of \<open>refreshEntries\<close> requests a second listing and
  makes a new promise.
\<close>

theorem shared_refresh:
  "(d_refreshingTask d = Some t \<longrightarrow>
      call_refreshEntries c d = d\<lparr> d_suspended := (d_suspended d)(c \<mapsto> (t, Joiner)) \<rparr>) \<and>
   ((\<forall>e \<in> set evs. reading m e) \<longrightarrow>
      d_listings (steps evs Directory_fresh) \<le> 1 \<and>
      (\<forall>caller r. d_returned (steps evs Directory_fresh) caller = Some r \<longrightarrow> r = Inr m)) \<and>
   (cs \<noteq> [] \<and> distinct cs \<and> set cs \<subseteq> set rs \<longrightarrow>
      d_listings (steps (map Call_getEntries cs @ Listing_done 0 outcome # map Resume rs) Directory_fresh) = 1 \<and>
      (\<forall>caller \<in> set cs.
         d_returned (steps (map Call_getEntries cs @ Listing_done 0 outcome # map Resume rs) Directory_fresh)
           caller = Some outcome) \<and>
      d_entries (steps (map Call_getEntries cs @ Listing_done 0 outcome # map Resume rs) Directory_fresh) =
        stored outcome \<and>
      d_refreshingTask (steps (map Call_getEntries cs @ Listing_done 0 outcome # map Resume rs) Directory_fresh) =
        None \<and>
      d_listings (call_refreshEntries c
         (steps (map Call_getEntries cs @ Listing_done 0 outcome # map Resume rs) Directory_fresh)) = 2 \<and>
      d_refreshingTask (call_refreshEntries c
         (steps (map Call_getEntries cs @ Listing_done 0 outcome # map Resume rs) Directory_fresh)) = Some 1)"
proof (intro conjI impI)
  assume "d_refreshingTask d = Some t"
  then show "call_refreshEntries c d = d\<lparr> d_suspended := (d_suspended d)(c \<mapsto> (t, Joiner)) \<rparr>"
    by (simp add: call_refreshEntries_def)
next
  assume "\<forall>e \<in> set evs. reading m e"
  with one_refresh_fresh have a: "one_refresh m (steps evs Directory_fresh)"
    by (rule one_refresh_steps)
  then show "d_listings (steps evs Directory_fresh) \<le> 1"
    by (simp add: one_refresh_def)
  from a show "\<forall>caller r. d_returned (steps evs Directory_fresh) caller = Some r \<longrightarrow> r = Inr m"
    by (simp add: one_refresh_def)
next
  assume h: "cs \<noteq> [] \<and> distinct cs \<and> set cs \<subseteq> set rs"
  then have n: "d_listings (steps (map Call_getEntries cs @ Listing_done 0 outcome # map Resume rs) Directory_fresh) = 1 \<and>
     (\<forall>c. c \<in> set cs \<longrightarrow> d_returned (steps (map Call_getEntries cs @ Listing_done 0 outcome # map Resume rs) Directory_fresh) c = Some outcome) \<and>
     d_entries (steps (map Call_getEntries cs @ Listing_done 0 outcome # map Resume rs) Directory_fresh) = stored outcome \<and>
     d_refreshingTask (steps (map Call_getEntries cs @ Listing_done 0 outcome # map Resume rs) Directory_fresh) = None \<and>
     d_promises (steps (map Call_getEntries cs @ Listing_done 0 outcome # map Resume rs) Directory_fresh) = [settle outcome]"
    using N_callers [of cs rs outcome] by blast
  from n show "d_listings (steps (map Call_getEntries cs @ Listing_done 0 outcome # map Resume rs) Directory_fresh) = 1"
    by simp
  from n show "\<forall>caller \<in> set cs.
         d_returned (steps (map Call_getEntries cs @ Listing_done 0 outcome # map Resume rs) Directory_fresh)
           caller = Some outcome"
    by simp
  from n show "d_entries (steps (map Call_getEntries cs @ Listing_done 0 outcome # map Resume rs) Directory_fresh) =
        stored outcome"
    by simp
  from n show "d_refreshingTask (steps (map Call_getEntries cs @ Listing_done 0 outcome # map Resume rs) Directory_fresh) =
        None"
    by simp
  from n show "d_listings (call_refreshEntries c
         (steps (map Call_getEntries cs @ Listing_done 0 outcome # map Resume rs) Directory_fresh)) = 2"
    by (simp add: call_refreshEntries_def)
  from n show "d_refreshingTask (call_refreshEntries c
         (steps (map Call_getEntries cs @ Listing_done 0 outcome # map Resume rs) Directory_fresh)) = Some 1"
    by (simp add: call_refreshEntries_def)
qed

theorem shared_refresh_witness:
  "d_refreshingTask (call_getEntries 1 (Directory_fresh :: (string \<times> nat) list refreshing)) = Some 0 \<and>
   d_listings (call_refreshEntries 7
      (call_getEntries 1 (Directory_fresh :: (string \<times> nat) list refreshing))) = 1 \<and>
   reading listing_example (Call_getEntries 1) \<and>
   reading listing_example (Listing_done 0 (Inr listing_example)) \<and>
   reading listing_example (Resume 1) \<and>
   d_returned (steps [Call_getEntries 1, Listing_done 0 (Inr listing_example), Resume 1]
      Directory_fresh) 1 = Some (Inr listing_example) \<and>
   [1, 2, 3] \<noteq> ([] :: nat list) \<and> distinct [1, 2, 3 :: nat] \<and> set [1, 2, 3] \<subseteq> set [3, 1, 2 :: nat] \<and>
   d_listings (steps (map Call_getEntries [1, 2, 3] @ Listing_done 0 (Inr listing_example) #
      map Resume [3, 1, 2]) Directory_fresh) = 1 \<and>
   d_returned (steps (map Call_getEntries [1, 2, 3] @ Listing_done 0 (Inr listing_example) #
      map Resume [3, 1, 2]) Directory_fresh) 2 = Some (Inr listing_example) \<and>
   d_entries (steps (map Call_getEntries [1, 2, 3] @ Listing_done 0 (Inr listing_example) #
      map Resume [3, 1, 2]) Directory_fresh) = Some listing_example"
  using shared_refresh
    [of "call_getEntries 1 Directory_fresh" 0 7
        "[Call_getEntries 1, Listing_done 0 (Inr listing_example), Resume 1]" listing_example
        "[1, 2, 3]" "[3, 1, 2]" "Inr listing_example"]
  by (simp add: call_getEntries_def call_refreshEntries_def Directory_fresh_def reading_def
      listing_done_def resume_def finish_def stored_def)

end
